theory Spec2Isabelle
  imports Complex_Main "HOL-Library.Word"
begin

section \<open>The rule model consumed by the build driver\<close>

text \<open>
  Modelled from the spec: \<^verbatim>\<open>parser.h\<close> is included by \<^verbatim>\<open>mmake.c\<close> but is not among
  the sources, so the types \<^verbatim>\<open>rule\<close> and \<^verbatim>\<open>makefile\<close> and their four accessors are taken
  as data. The field names are the accessor names the driver calls.
  \<^item> \<^verbatim>\<open>rule_prereq(rule)\<close> is a \<^verbatim>\<open>const char **\<close>. The driver tests it against \<^verbatim>\<open>NULL\<close>
    before walking it as a \<^verbatim>\<open>NULL\<close>-terminated array, so both are kept apart:
    \<open>None\<close> is the null pointer, \<open>Some ps\<close> the array (\<open>Some []\<close> an array holding
    only the terminator).
  \<^item> \<^verbatim>\<open>rule_cmd(rule)\<close> is walked without any test, so it is a \<^verbatim>\<open>NULL\<close>-terminated array.
  \<^item> \<^verbatim>\<open>makefile_rule(m, name)\<close> is a rule or \<^verbatim>\<open>NULL\<close>.
\<close>

record rule =
  rule_prereq :: "string list option"
  rule_cmd :: "string list"

record makefile =
  makefile_default_target :: string
  makefile_rule :: "string \<Rightarrow> rule option"

section \<open>The run context\<close>

text \<open>
  \<^verbatim>\<open>struct start_args\<close> after \<^verbatim>\<open>check_start_args\<close>. The fields \<^verbatim>\<open>n_tar\<close> (capacity
  of the target array) and \<^verbatim>\<open>makefile\<close> (path given with \<^verbatim>\<open>-f\<close>) are used by argument
  handling and file selection only and are left out; \<open>target\<close> is the
  \<^verbatim>\<open>NULL\<close>-terminated array of target names.
\<close>

record start_args =
  arg_b :: int
  arg_s :: int
  c_tar :: int
  exitcode :: int
  target :: "string list"

section \<open>The operating system as seen by the driver\<close>

text \<open>
  The file system answers \<^verbatim>\<open>access(name, F_OK)\<close> and gives the \<^verbatim>\<open>st_mtime\<close> that
  \<^verbatim>\<open>lstat\<close> stores (a \<^verbatim>\<open>time_t\<close>, seconds).
\<close>

record filesys =
  access_F_OK :: "string \<Rightarrow> bool"
  lstat_mtime :: "string \<Rightarrow> int"

text \<open>
  What \<^verbatim>\<open>waitpid\<close> stores in \<^verbatim>\<open>status\<close>: a normal exit with its 8-bit exit status, or
  a termination by a signal.
\<close>

datatype wstatus = W_exited "8 word" | W_signaled nat

fun WIFEXITED :: "wstatus \<Rightarrow> bool" where
  "WIFEXITED (W_exited c) = True"
| "WIFEXITED (W_signaled n) = False"

fun WEXITSTATUS :: "wstatus \<Rightarrow> int" where
  "WEXITSTATUS (W_exited c) = uint c"
| "WEXITSTATUS (W_signaled n) = 0"

text \<open>
  What happens in the child after \<^verbatim>\<open>fork\<close>: \<^verbatim>\<open>execvp\<close> fails with an \<^verbatim>\<open>errno\<close> (the
  child then runs the driver's own error path), or the program runs and terminates.
\<close>

datatype child = Exec_failed int | Ran wstatus

text \<open>
  One call of \<^verbatim>\<open>fork\<close> followed by \<^verbatim>\<open>waitpid\<close>: \<^verbatim>\<open>fork\<close> returns -1 with an \<^verbatim>\<open>errno\<close>,
  or a child exists and \<^verbatim>\<open>waitpid\<close> either fails with an \<^verbatim>\<open>errno\<close> (\<open>Some e\<close>) or
  returns the child's status.
\<close>

datatype spawn = Fork_failed int | Forked child "int option"

text \<open>
  Lines written to the error stream: \<open>Perror e\<close> is what \<^verbatim>\<open>perror(strerror(errno))\<close>
  writes when \<^verbatim>\<open>errno\<close> is \<open>e\<close>.
\<close>

datatype err_line = Perror int | No_rule_msg string

text \<open>
  The log of what the driver asked for: every verdict of the staleness check and every
  \<^verbatim>\<open>fork\<close>, with the argument vector, what became of it and the file system the
  operating system left. The log is not part of the program; the properties below are
  stated on it.
\<close>

datatype event = Checked string string bool | Spawn "string list" spawn filesys

text \<open>
  The C library's \<^verbatim>\<open>perror\<close> may overwrite \<^verbatim>\<open>errno\<close> while it writes (with an error
  stream opened for writing only it leaves \<^verbatim>\<open>EINVAL\<close>, with a closed one \<^verbatim>\<open>EBADF\<close>), and
  the driver calls \<^verbatim>\<open>exit(errno)\<close> after it. \<open>perror_errno w e\<close> is the value of
  \<^verbatim>\<open>errno\<close> after \<^verbatim>\<open>perror\<close> has run with \<^verbatim>\<open>errno\<close> equal to \<open>e\<close>; it belongs to the
  error stream, which the children inherit.
\<close>

record world =
  fs :: filesys
  stdout_open :: bool
  stdout :: string
  stderr :: "err_line list"
  perror_errno :: "int \<Rightarrow> int"
  trace :: "event list"

text \<open>
  The operating system: given the argument vector and the world in which \<^verbatim>\<open>fork\<close> is
  called (which holds the inherited standard output and the history), it says what
  happens to the child and what the file system is afterwards.
\<close>

type_synonym os = "string list \<Rightarrow> world \<Rightarrow> spawn \<times> filesys"

section \<open>Outcomes\<close>

text \<open>
  A C function of the driver either returns (with a value and the world it leaves),
  or calls \<^verbatim>\<open>exit\<close>, which ends the whole process with an 8-bit status, or the
  recursion is deeper than the given bound. \<open>and_then\<close> is the sequencing of C
  statements: what follows a call runs only if the call returns.
\<close>

datatype 'a outcome = Returned 'a world | Exited "8 word" world | Out_of_fuel

definition exit :: "int \<Rightarrow> world \<Rightarrow> 'a outcome" where
  "exit c w = Exited (word_of_int c) w"

definition EXIT_FAILURE :: int where
  "EXIT_FAILURE = 1"

fun and_then :: "'a outcome \<Rightarrow> ('a \<Rightarrow> world \<Rightarrow> 'b outcome) \<Rightarrow> 'b outcome" where
  "and_then (Returned a w) f = f a w"
| "and_then (Exited c w) f = Exited c w"
| "and_then Out_of_fuel f = Out_of_fuel"

definition printf :: "string \<Rightarrow> world \<Rightarrow> world" where
  "printf str w = (if stdout_open w then w\<lparr>stdout := stdout w @ str\<rparr> else w)"

definition fclose_stdout :: "world \<Rightarrow> world" where
  "fclose_stdout w = w\<lparr>stdout_open := False\<rparr>"

definition perror :: "int \<Rightarrow> world \<Rightarrow> world" where
  "perror e w = w\<lparr>stderr := stderr w @ [Perror e]\<rparr>"

definition log_event :: "event \<Rightarrow> world \<Rightarrow> world" where
  "log_event ev w = w\<lparr>trace := trace w @ [ev]\<rparr>"

section \<open>check_file\<close>

text \<open>
  \<^verbatim>\<open>difftime\<close> returns the difference of two \<^verbatim>\<open>time_t\<close> values, in seconds, as a
  \<^verbatim>\<open>double\<close>; it is taken as the exact difference, whose sign (the only thing
  \<^verbatim>\<open>check_file\<close> looks at) is that of the difference the C library computes.
\<close>

definition difftime :: "int \<Rightarrow> int \<Rightarrow> real" where
  "difftime time1 time0 = real_of_int time1 - real_of_int time0"

definition verdict :: "string \<Rightarrow> string \<Rightarrow> bool \<Rightarrow> world \<Rightarrow> bool outcome" where
  "verdict current prereq b w = Returned b (log_event (Checked current prereq b) w)"

definition check_file :: "string \<Rightarrow> string \<Rightarrow> makefile \<Rightarrow> world \<Rightarrow> bool outcome" where
  "check_file current prereq m w =
     (if \<not> access_F_OK (fs w) prereq then
        (if makefile_rule m prereq = None then
           exit EXIT_FAILURE (w\<lparr>stderr := stderr w @ [No_rule_msg prereq]\<rparr>)
         else verdict current prereq True w)
      else if \<not> access_F_OK (fs w) current then verdict current prereq True w
      else
        (let time_tar = lstat_mtime (fs w) current;
             time_pre = lstat_mtime (fs w) prereq
         in if difftime time_pre time_tar < 0 \<or> difftime time_pre time_tar = 0
            then verdict current prereq False w
            else verdict current prereq True w))"

section \<open>run_cmd\<close>

fun print_cmd :: "string list \<Rightarrow> world \<Rightarrow> world" where
  "print_cmd [] w = w"
| "print_cmd [x] w = printf (x @ [CHR 0x0A]) w"
| "print_cmd (x # y # ys) w = print_cmd (y # ys) (printf (x @ '' '') w)"

text \<open>
  The status the parent reads for a child: a child whose \<^verbatim>\<open>execvp\<close> failed with
  \<^verbatim>\<open>errno\<close> \<open>e\<close> runs \<^verbatim>\<open>perror(strerror(errno)); exit(errno);\<close> itself, so it exits
  with the value \<^verbatim>\<open>perror\<close> leaves in \<^verbatim>\<open>errno\<close> (\<open>pe\<close> is the \<open>perror_errno\<close> of the
  world).
\<close>

fun child_status :: "(int \<Rightarrow> int) \<Rightarrow> child \<Rightarrow> wstatus" where
  "child_status pe (Exec_failed e) = W_exited (word_of_int (pe e))"
| "child_status pe (Ran st) = st"

fun child_stderr :: "child \<Rightarrow> world \<Rightarrow> world" where
  "child_stderr (Exec_failed e) w = perror e w"
| "child_stderr (Ran st) w = w"

definition run_cmd :: "os \<Rightarrow> rule \<Rightarrow> start_args \<Rightarrow> world \<Rightarrow> start_args outcome" where
  "run_cmd sys tar_rule s w =
     (let exec_cmd = rule_cmd tar_rule;
          w1 = print_cmd exec_cmd w;
          res = fst (sys exec_cmd w1);
          w2 = log_event (Spawn exec_cmd res (snd (sys exec_cmd w1)))
                 (w1\<lparr>fs := snd (sys exec_cmd w1)\<rparr>)
      in case res of
           Fork_failed e \<Rightarrow> exit (perror_errno w2 e) (perror e w2)
         | Forked ch wait_err \<Rightarrow>
             (case wait_err of
                Some e \<Rightarrow> exit (perror_errno w2 e) (perror e (child_stderr ch w2))
              | None \<Rightarrow>
                  (let status = child_status (perror_errno w2) ch
                   in if WIFEXITED status
                      then Returned (s\<lparr>exitcode := WEXITSTATUS status\<rparr>) (child_stderr ch w2)
                      else Returned s (child_stderr ch w2))))"

section \<open>run_makefile\<close>

text \<open>
  \<^verbatim>\<open>while (arr[i] != NULL) { run_makefile(m, arr[i], s); i++; }\<close>, the loop over the
  prerequisites in \<^verbatim>\<open>run_makefile\<close> and over the targets in \<^verbatim>\<open>main\<close>.
\<close>

fun for_each :: "(string \<Rightarrow> start_args \<Rightarrow> world \<Rightarrow> start_args outcome) \<Rightarrow>
    string list \<Rightarrow> start_args \<Rightarrow> world \<Rightarrow> start_args outcome" where
  "for_each f [] s w = Returned s w"
| "for_each f (p # ps) s w = and_then (f p s w) (for_each f ps)"

text \<open>The second loop of \<^verbatim>\<open>run_makefile\<close>, over index \<^verbatim>\<open>j\<close>.\<close>

fun check_loop :: "os \<Rightarrow> makefile \<Rightarrow> string \<Rightarrow> rule \<Rightarrow> string list \<Rightarrow>
    start_args \<Rightarrow> world \<Rightarrow> start_args outcome" where
  "check_loop sys m tgt tar_rule [] s w = Returned s w"
| "check_loop sys m tgt tar_rule (p # ps) s w =
     and_then (check_file tgt p m w)
       (\<lambda>newer w1.
          if newer then and_then (run_cmd sys tar_rule s w1) (check_loop sys m tgt tar_rule ps)
          else check_loop sys m tgt tar_rule ps s w1)"

text \<open>
  The recursion of \<^verbatim>\<open>run_makefile\<close> has no bound in the source (a cyclic rule file
  recurses until the stack is exhausted); the first argument bounds its depth.
\<close>

primrec run_makefile :: "nat \<Rightarrow> os \<Rightarrow> makefile \<Rightarrow> string \<Rightarrow> start_args \<Rightarrow> world \<Rightarrow>
    start_args outcome" where
  "run_makefile 0 sys m tgt s w = Out_of_fuel"
| "run_makefile (Suc n) sys m tgt s w =
     (case makefile_rule m tgt of
        None \<Rightarrow> Returned s w
      | Some tar_rule \<Rightarrow>
          (case rule_prereq tar_rule of
             Some tar_prereq \<Rightarrow>
               and_then (for_each (run_makefile n sys m) tar_prereq s w)
                 (\<lambda>s1 w1.
                    if arg_b s1 = 1 then run_cmd sys tar_rule s1 w1
                    else check_loop sys m tgt tar_rule tar_prereq s1 w1)
           | None \<Rightarrow> run_cmd sys tar_rule s w))"

section \<open>main\<close>

text \<open>
  \<^verbatim>\<open>main\<close> from line 54 on: \<open>sa\<close> is the context filled in by \<^verbatim>\<open>check_start_args\<close>,
  \<open>m\<close> the rule file that \<^verbatim>\<open>choose_makefile\<close> returns. \<open>traverse\<close> is the
  \<^verbatim>\<open>if\<close>/\<^verbatim>\<open>else\<close> of lines 61 to 75.
\<close>

definition traverse :: "nat \<Rightarrow> os \<Rightarrow> makefile \<Rightarrow> start_args \<Rightarrow> world \<Rightarrow> start_args outcome" where
  "traverse fuel sys m sa w =
     (if c_tar sa = 0 then run_makefile fuel sys m (makefile_default_target m) sa w
      else for_each (run_makefile fuel sys m) (target sa) sa w)"

definition main :: "nat \<Rightarrow> os \<Rightarrow> makefile \<Rightarrow> start_args \<Rightarrow> world \<Rightarrow> start_args outcome" where
  "main fuel sys m sa w =
     and_then (traverse fuel sys m sa (if arg_s sa = 1 then fclose_stdout w else w))
       (\<lambda>sa' w'. exit (exitcode sa') w')"

section \<open>Reading the log\<close>

text \<open>The staleness verdicts of a log, in order, and the argument vectors that were forked.\<close>

fun checks_of :: "event list \<Rightarrow> (string \<times> string \<times> bool) list" where
  "checks_of [] = []"
| "checks_of (Checked c p b # evs) = (c, p, b) # checks_of evs"
| "checks_of (Spawn argv res f # evs) = checks_of evs"

fun spawns_of :: "event list \<Rightarrow> string list list" where
  "spawns_of [] = []"
| "spawns_of (Checked c p b # evs) = spawns_of evs"
| "spawns_of (Spawn argv res f # evs) = argv # spawns_of evs"

text \<open>
  The exit status a command leaves behind, if it leaves one: the status of a program
  that ran to a normal exit, or the \<^verbatim>\<open>errno\<close> (cut to 8 bits) a child exits with when
  its \<^verbatim>\<open>execvp\<close> failed, which is the one \<^verbatim>\<open>perror\<close> leaves (\<open>pe\<close> is the
  \<open>perror_errno\<close> of the run). A failed \<^verbatim>\<open>fork\<close> or \<^verbatim>\<open>waitpid\<close> and a child ended by
  a signal leave none.
\<close>

fun exit_status_of :: "(int \<Rightarrow> int) \<Rightarrow> event \<Rightarrow> int option" where
  "exit_status_of pe (Spawn argv (Forked (Ran (W_exited c)) None) f) = Some (uint c)"
| "exit_status_of pe (Spawn argv (Forked (Exec_failed e) None) f) = Some (pe e mod 256)"
| "exit_status_of pe ev = None"

definition recorded :: "(int \<Rightarrow> int) \<Rightarrow> event list \<Rightarrow> int list" where
  "recorded pe evs = List.map_filter (exit_status_of pe) evs"

definition last_status :: "(int \<Rightarrow> int) \<Rightarrow> int \<Rightarrow> event list \<Rightarrow> int" where
  "last_status pe c evs = (if recorded pe evs = [] then c else last (recorded pe evs))"

text \<open>The world an outcome leaves, and whether the function returned to its caller.\<close>

fun world_of :: "'a outcome \<Rightarrow> world option" where
  "world_of (Returned a w) = Some w"
| "world_of (Exited c w) = Some w"
| "world_of Out_of_fuel = None"


text \<open>
  The \<^verbatim>\<open>errno\<close> of a \<^verbatim>\<open>fork\<close> or \<^verbatim>\<open>waitpid\<close> that failed, if the event is one.
\<close>

fun spawn_errno :: "spawn \<Rightarrow> int option" where
  "spawn_errno (Fork_failed e) = Some e"
| "spawn_errno (Forked ch (Some e)) = Some e"
| "spawn_errno (Forked ch None) = None"

fun fatal_errno :: "event \<Rightarrow> int option" where
  "fatal_errno (Spawn argv res f) = spawn_errno res"
| "fatal_errno (Checked c p b) = None"





section \<open>Invariants of a run\<close>

text \<open>
  What every function of the driver guarantees about the log and the context, from
  the state it starts in: a function that returns has logged no failed \<^verbatim>\<open>fork\<close> or
  \<^verbatim>\<open>waitpid\<close>, keeps \<^verbatim>\<open>arg_b\<close> and leaves in \<^verbatim>\<open>exitcode\<close> the last status recorded;
  a function that exits has logged at most one such failure, as the last event.
\<close>

definition calm :: "event list \<Rightarrow> bool" where
  "calm evs = list_all (\<lambda>ev. fatal_errno ev = None) evs"

fun progress :: "start_args \<Rightarrow> world \<Rightarrow> start_args outcome \<Rightarrow> bool" where
  "progress s w (Returned s' w') =
     (arg_b s' = arg_b s \<and> perror_errno w' = perror_errno w \<and>
      (\<exists>evs. trace w' = trace w @ evs \<and> calm evs
         \<and> exitcode s' = last_status (perror_errno w) (exitcode s) evs))"
| "progress s w (Exited c w') =
     (perror_errno w' = perror_errno w \<and>
      (\<exists>evs. trace w' = trace w @ evs \<and>
        (calm evs \<or> (\<exists>evs0 ev e. evs = evs0 @ [ev] \<and> calm evs0 \<and> fatal_errno ev = Some e
            \<and> c = word_of_int (perror_errno w e) \<and> (\<exists>errs. stderr w' = errs @ [Perror e])))))"
| "progress s w Out_of_fuel = True"



text \<open>
  Two worlds that differ at most in standard output, and an operating system whose
  answers do not depend on standard output.
\<close>

definition same_but_stdout :: "world \<Rightarrow> world \<Rightarrow> bool" where
  "same_but_stdout w w' =
     (fs w = fs w' \<and> stderr w = stderr w' \<and> perror_errno w = perror_errno w' \<and> trace w = trace w')"

definition stdout_blind :: "os \<Rightarrow> bool" where
  "stdout_blind sys = (\<forall>argv w w'. same_but_stdout w w' \<longrightarrow> sys argv w = sys argv w')"

definition agree :: "bool \<Rightarrow> world \<Rightarrow> world \<Rightarrow> bool" where
  "agree q w w' = (if q then w = w' else same_but_stdout w w')"

definition os_ok :: "bool \<Rightarrow> os \<Rightarrow> bool" where
  "os_ok q sys = (q \<or> stdout_blind sys)"

fun sim :: "bool \<Rightarrow> bool \<Rightarrow> start_args outcome \<Rightarrow> start_args outcome \<Rightarrow> bool" where
  "sim q e (Returned s w) (Returned s' w') =
     (arg_b s = arg_b s' \<and> (e \<longrightarrow> exitcode s = exitcode s') \<and> agree q w w')"
| "sim q e (Exited c w) (Exited c' w') = (c = c' \<and> agree q w w')"
| "sim q e Out_of_fuel Out_of_fuel = True"
| "sim q e out out' = False"

section \<open>Concrete inputs\<close>

text \<open>The context as \<^verbatim>\<open>init_struct\<close> leaves it.\<close>

definition init_struct :: start_args where
  "init_struct = \<lparr>arg_b = 0, arg_s = 0, c_tar = 0, exitcode = 0, target = []\<rparr>"

text \<open>A rule file given by its default target and its rules.\<close>

definition makefile_of :: "string \<Rightarrow> (string \<times> rule) list \<Rightarrow> makefile" where
  "makefile_of d rules = \<lparr>makefile_default_target = d, makefile_rule = map_of rules\<rparr>"

text \<open>
  A world in which exactly the listed files exist, with the given modification
  times, standard output is open, \<^verbatim>\<open>perror\<close> leaves \<^verbatim>\<open>errno\<close> as it is and nothing has
  happened yet.
\<close>

definition files_of :: "(string \<times> int) list \<Rightarrow> filesys" where
  "files_of fl = \<lparr>access_F_OK = (\<lambda>n. map_of fl n \<noteq> None),
     lstat_mtime = (\<lambda>n. case map_of fl n of Some t \<Rightarrow> t | None \<Rightarrow> 0)\<rparr>"

definition world_with :: "(string \<times> int) list \<Rightarrow> world" where
  "world_with fl = \<lparr>fs = files_of fl, stdout_open = True, stdout = [], stderr = [],
     perror_errno = (\<lambda>e. e), trace = []\<rparr>"

text \<open>An operating system in which every command ends with the same status and touches no file.\<close>

definition sys_always :: "wstatus \<Rightarrow> os" where
  "sys_always st argv w = (Forked (Ran st) None, fs w)"

text \<open>
  An operating system given by the programs on the path and the status each exits
  with: \<^verbatim>\<open>execvp\<close> of any other program fails with \<^verbatim>\<open>ENOENT\<close> (2), and a child
  given an empty argument vector is ended by \<^verbatim>\<open>SIGSEGV\<close> (11). No file is touched.
\<close>

definition sys_table :: "(string \<times> 8 word) list \<Rightarrow> os" where
  "sys_table progs argv w =
     (case argv of
        [] \<Rightarrow> (Forked (Ran (W_signaled 11)) None, fs w)
      | prog # args \<Rightarrow>
          (case map_of progs prog of
             Some c \<Rightarrow> (Forked (Ran (W_exited c)) None, fs w)
           | None \<Rightarrow> (Forked (Exec_failed 2) None, fs w)))"



text \<open>An operating system in which every \<^verbatim>\<open>fork\<close> fails with the given \<^verbatim>\<open>errno\<close>.\<close>

definition sys_no_fork :: "int \<Rightarrow> os" where
  "sys_no_fork e argv w = (Fork_failed e, fs w)"

text \<open>
  An operating system whose programs write to the standard output they inherit and
  exit with status 1 when it is closed, as \<^verbatim>\<open>echo\<close> does, and with 0 otherwise.
\<close>

definition sys_needs_stdout :: os where
  "sys_needs_stdout argv w = (Forked (Ran (W_exited (if stdout_open w then 0 else 1))) None, fs w)"

text \<open>Rule files, contexts and worlds used as examples.\<close>

definition two_rules :: makefile where
  "two_rules = makefile_of ''one''
     [(''one'', \<lparr>rule_prereq = None, rule_cmd = [''first'']\<rparr>),
      (''two'', \<lparr>rule_prereq = None, rule_cmd = [''second'']\<rparr>)]"

definition both_targets :: start_args where
  "both_targets = init_struct\<lparr>c_tar := 2, target := [''one'', ''two'']\<rparr>"

definition app_rule :: rule where
  "app_rule = \<lparr>rule_prereq = Some [''a.o'', ''b.o'', ''c.o''], rule_cmd = [''cc'', ''-o'', ''app'']\<rparr>"

definition app_makefile :: makefile where
  "app_makefile = makefile_of ''app'' [(''app'', app_rule)]"


definition hello_rules :: makefile where
  "hello_rules = makefile_of ''hello'' [(''hello'', \<lparr>rule_prereq = None, rule_cmd = [''echo'', ''hello'']\<rparr>)]"

lemmas driver_defs = main_def traverse_def run_cmd_def check_file_def verdict_def exit_def
  EXIT_FAILURE_def printf_def fclose_stdout_def perror_def log_event_def difftime_def

lemmas input_defs = init_struct_def makefile_of_def files_of_def world_with_def

section \<open>Basic facts\<close>

lemma difftime_not_after: "(difftime a b < 0 \<or> difftime a b = 0) = (a \<le> b)"
  by (auto simp: difftime_def)

section \<open>Facts about the log\<close>

lemma uint_word_of_int_8: "uint (word_of_int e :: 8 word) = e mod 256"
  by (simp add: uint_word_of_int take_bit_eq_mod)

lemma print_cmd_fields [simp]:
  "trace (print_cmd cmd w) = trace w"
  "fs (print_cmd cmd w) = fs w"
  "stderr (print_cmd cmd w) = stderr w"
  "stdout_open (print_cmd cmd w) = stdout_open w"
  "perror_errno (print_cmd cmd w) = perror_errno w"
  by (induction cmd w rule: print_cmd.induct; simp add: printf_def)+

lemma log_event_fields [simp]:
  "fs (log_event ev w) = fs w"
  "stderr (log_event ev w) = stderr w"
  "stdout (log_event ev w) = stdout w"
  "stdout_open (log_event ev w) = stdout_open w"
  "perror_errno (log_event ev w) = perror_errno w"
  by (simp_all add: log_event_def)

lemma child_stderr_fields [simp]:
  "trace (child_stderr ch w) = trace w"
  "fs (child_stderr ch w) = fs w"
  "stdout (child_stderr ch w) = stdout w"
  "stdout_open (child_stderr ch w) = stdout_open w"
  "perror_errno (child_stderr ch w) = perror_errno w"
  by (cases ch; simp add: perror_def)+

lemma recorded_append: "recorded pe (xs @ ys) = recorded pe xs @ recorded pe ys"
  by (simp add: recorded_def map_filter_def)

lemma recorded_simps [simp]:
  "recorded pe [] = []"
  "recorded pe (ev # evs) =
     (case exit_status_of pe ev of Some c \<Rightarrow> c # recorded pe evs | None \<Rightarrow> recorded pe evs)"
  by (simp_all add: recorded_def map_filter_simps split: option.splits)

lemma last_status_append:
  "last_status pe c (xs @ ys) = last_status pe (last_status pe c xs) ys"
  by (simp add: last_status_def recorded_append)

lemma last_status_Nil [simp]: "last_status pe c [] = c"
  by (simp add: last_status_def)

lemma calm_simps [simp]:
  "calm []"
  "calm (ev # evs) = (fatal_errno ev = None \<and> calm evs)"
  "calm (xs @ ys) = (calm xs \<and> calm ys)"
  by (simp_all add: calm_def)

lemma last_status_Cons [simp]:
  "last_status pe c (ev # evs) =
     last_status pe (case exit_status_of pe ev of Some x \<Rightarrow> x | None \<Rightarrow> c) evs"
  by (simp add: last_status_def split: option.splits)

section \<open>What run_cmd logs and records\<close>

lemma exit_status_of_Forked:
  "exit_status_of pe (Spawn argv (Forked ch None) f) =
     (if WIFEXITED (child_status pe ch) then Some (WEXITSTATUS (child_status pe ch)) else None)"
proof (cases ch)
  case (Exec_failed e)
  then show ?thesis by (simp add: uint_word_of_int_8)
next
  case (Ran st)
  then show ?thesis by (cases st) simp_all
qed

lemma run_cmd_Returned_res:
  "run_cmd sys r s w = Returned s' w' \<Longrightarrow>
   trace w' = trace w @ [Spawn (rule_cmd r) (fst (sys (rule_cmd r) (print_cmd (rule_cmd r) w)))
                           (snd (sys (rule_cmd r) (print_cmd (rule_cmd r) w)))]
   \<and> spawn_errno (fst (sys (rule_cmd r) (print_cmd (rule_cmd r) w))) = None
   \<and> fs w' = snd (sys (rule_cmd r) (print_cmd (rule_cmd r) w))
   \<and> arg_b s' = arg_b s
   \<and> perror_errno w' = perror_errno w
   \<and> exitcode s' = last_status (perror_errno w) (exitcode s)
        [Spawn (rule_cmd r) (fst (sys (rule_cmd r) (print_cmd (rule_cmd r) w)))
           (snd (sys (rule_cmd r) (print_cmd (rule_cmd r) w)))]"
  by (auto simp: run_cmd_def Let_def log_event_def exit_def exit_status_of_Forked
      split: spawn.splits option.splits if_splits)

lemma run_cmd_Returned:
  "run_cmd sys r s w = Returned s' w' \<Longrightarrow>
   \<exists>res f. trace w' = trace w @ [Spawn (rule_cmd r) res f] \<and> spawn_errno res = None
      \<and> fs w' = f \<and> arg_b s' = arg_b s \<and> perror_errno w' = perror_errno w
      \<and> exitcode s' = last_status (perror_errno w) (exitcode s) [Spawn (rule_cmd r) res f]"
  using run_cmd_Returned_res by blast

lemma run_cmd_Exited:
  "run_cmd sys r s w = Exited c w' \<Longrightarrow>
   \<exists>res f e. trace w' = trace w @ [Spawn (rule_cmd r) res f] \<and> spawn_errno res = Some e
      \<and> perror_errno w' = perror_errno w
      \<and> c = word_of_int (perror_errno w e) \<and> (\<exists>errs. stderr w' = errs @ [Perror e])"
  by (auto simp: run_cmd_def Let_def log_event_def exit_def perror_def
      split: spawn.splits option.splits if_splits)

text \<open>What \<^verbatim>\<open>run_cmd\<close> does for each answer of the operating system.\<close>

lemma run_cmd_fatal:
  "spawn_errno (fst (sys (rule_cmd r) (print_cmd (rule_cmd r) w))) = Some e \<Longrightarrow>
   \<exists>w'. run_cmd sys r s w = Exited (word_of_int (perror_errno w e)) w'
      \<and> (\<exists>errs. stderr w' = errs @ [Perror e])"
  by (auto simp: run_cmd_def Let_def log_event_def exit_def perror_def
      split: spawn.splits option.splits)



lemma run_cmd_exec_failed:
  "fst (sys (rule_cmd r) (print_cmd (rule_cmd r) w)) = Forked (Exec_failed e) None \<Longrightarrow>
   \<exists>w1. run_cmd sys r s w = Returned (s\<lparr>exitcode := perror_errno w e mod 256\<rparr>) w1"
  by (simp add: run_cmd_def Let_def log_event_def uint_word_of_int_8)

section \<open>The invariant holds for every function of the driver\<close>

lemma progress_run_cmd: "progress s w (run_cmd sys r s w)"
proof (cases "run_cmd sys r s w")
  case (Returned s' w')
  from run_cmd_Returned [OF this] obtain res f where
    "trace w' = trace w @ [Spawn (rule_cmd r) res f]" "spawn_errno res = None"
    "arg_b s' = arg_b s" "perror_errno w' = perror_errno w"
    "exitcode s' = last_status (perror_errno w) (exitcode s) [Spawn (rule_cmd r) res f]"
    by blast
  with Returned show ?thesis by (auto intro!: exI [of _ "[Spawn (rule_cmd r) res f]"])
next
  case (Exited c w')
  from run_cmd_Exited [OF this] obtain res f e where
    "trace w' = trace w @ [Spawn (rule_cmd r) res f]" "spawn_errno res = Some e"
    "perror_errno w' = perror_errno w" "c = word_of_int (perror_errno w e)"
    "\<exists>errs. stderr w' = errs @ [Perror e]"
    by blast
  with Exited show ?thesis by (auto intro!: exI [of _ "[Spawn (rule_cmd r) res f]"])
next
  case Out_of_fuel
  then show ?thesis by simp
qed


lemma progress_and_then:
  assumes "progress s w out" and "\<And>s1 w1. arg_b s1 = arg_b s \<Longrightarrow> progress s1 w1 (k s1 w1)"
  shows "progress s w (and_then out k)"
proof (cases out)
  case (Returned s1 w1)
  with assms(1) obtain evs where a: "arg_b s1 = arg_b s" and pw: "perror_errno w1 = perror_errno w"
    and t: "trace w1 = trace w @ evs" and c: "calm evs"
    and e: "exitcode s1 = last_status (perror_errno w) (exitcode s) evs"
    by auto
  have p: "progress s1 w1 (k s1 w1)" by (rule assms(2) [OF a])
  show ?thesis
  proof (cases "k s1 w1")
    case (Returned s2 w2)
    with p pw obtain evs2 where "arg_b s2 = arg_b s1" "perror_errno w2 = perror_errno w"
      "trace w2 = trace w1 @ evs2" "calm evs2"
      "exitcode s2 = last_status (perror_errno w) (exitcode s1) evs2"
      by auto
    with a t c e have "arg_b s2 = arg_b s \<and> perror_errno w2 = perror_errno w
      \<and> trace w2 = trace w @ (evs @ evs2) \<and> calm (evs @ evs2)
      \<and> exitcode s2 = last_status (perror_errno w) (exitcode s) (evs @ evs2)"
      by (simp add: last_status_append)
    then show ?thesis using \<open>out = Returned s1 w1\<close> Returned by (auto simp del: calm_simps(3))
  next
    case (Exited c2 w2)
    with p pw obtain evs2 where pw2: "perror_errno w2 = perror_errno w"
      and t2: "trace w2 = trace w1 @ evs2" and
      d: "calm evs2 \<or> (\<exists>evs0 ev e. evs2 = evs0 @ [ev] \<and> calm evs0 \<and> fatal_errno ev = Some e
            \<and> c2 = word_of_int (perror_errno w e) \<and> (\<exists>errs. stderr w2 = errs @ [Perror e]))"
      by auto
    from d have "calm (evs @ evs2) \<or> (\<exists>evs0 ev e. evs @ evs2 = evs0 @ [ev] \<and> calm evs0
        \<and> fatal_errno ev = Some e \<and> c2 = word_of_int (perror_errno w e)
        \<and> (\<exists>errs. stderr w2 = errs @ [Perror e]))"
    proof
      assume "calm evs2" with c show ?thesis by simp
    next
      assume "\<exists>evs0 ev e. evs2 = evs0 @ [ev] \<and> calm evs0 \<and> fatal_errno ev = Some e
            \<and> c2 = word_of_int (perror_errno w e) \<and> (\<exists>errs. stderr w2 = errs @ [Perror e])"
      then obtain evs0 ev e where "evs2 = evs0 @ [ev]" "calm evs0" "fatal_errno ev = Some e"
        "c2 = word_of_int (perror_errno w e)" "\<exists>errs. stderr w2 = errs @ [Perror e]" by blast
      with c have "evs @ evs2 = (evs @ evs0) @ [ev] \<and> calm (evs @ evs0)
        \<and> fatal_errno ev = Some e \<and> c2 = word_of_int (perror_errno w e)
        \<and> (\<exists>errs. stderr w2 = errs @ [Perror e])" by simp
      then show ?thesis by blast
    qed
    moreover have "trace w2 = trace w @ (evs @ evs2)" using t t2 by simp
    ultimately show ?thesis using \<open>out = Returned s1 w1\<close> Exited pw2
      by (auto simp del: calm_simps(3) append_assoc)
  next
    case Out_of_fuel
    then show ?thesis using \<open>out = Returned s1 w1\<close> by simp
  qed
next
  case (Exited c w')
  with assms(1) show ?thesis by simp
next
  case Out_of_fuel
  then show ?thesis by simp
qed

lemma check_file_cases:
  "(\<exists>b. check_file current prereq m w = Returned b (log_event (Checked current prereq b) w))
   \<or> check_file current prereq m w
       = Exited (word_of_int EXIT_FAILURE) (w\<lparr>stderr := stderr w @ [No_rule_msg prereq]\<rparr>)"
  by (auto simp: check_file_def verdict_def exit_def Let_def)

lemma progress_check_loop: "progress s w (check_loop sys m tgt r ps s w)"
proof (induction ps arbitrary: s w)
  case Nil
  show ?case by (simp add: exI [of _ "[]"])
next
  case (Cons p ps)
  from check_file_cases [of tgt p m w] show ?case
  proof
    assume "\<exists>b. check_file tgt p m w = Returned b (log_event (Checked tgt p b) w)"
    then obtain b where cf: "check_file tgt p m w = Returned b (log_event (Checked tgt p b) w)" ..
    let ?w1 = "log_event (Checked tgt p b) w"
    have step: "progress s w (Returned s ?w1)"
      by (simp add: log_event_def exI [of _ "[Checked tgt p b]"])
    have rest: "progress s ?w1
        (if b then and_then (run_cmd sys r s ?w1) (check_loop sys m tgt r ps)
         else check_loop sys m tgt r ps s ?w1)"
      by (simp add: Cons.IH progress_and_then [OF progress_run_cmd])
    have "progress s w (and_then (Returned s ?w1) (\<lambda>s1 w1.
        if b then and_then (run_cmd sys r s1 w1) (check_loop sys m tgt r ps)
         else check_loop sys m tgt r ps s1 w1))"
      by (rule progress_and_then [OF step]) (simp add: Cons.IH progress_and_then [OF progress_run_cmd])
    then show ?thesis by (simp add: cf)
  next
    assume "check_file tgt p m w
       = Exited (word_of_int EXIT_FAILURE) (w\<lparr>stderr := stderr w @ [No_rule_msg p]\<rparr>)"
    then show ?thesis by (simp add: exI [of _ "[]"])
  qed
qed

lemma progress_for_each:
  assumes "\<And>p s w. progress s w (f p s w)"
  shows "progress s w (for_each f ps s w)"
proof (induction ps arbitrary: s w)
  case Nil
  show ?case by (simp add: exI [of _ "[]"])
next
  case (Cons p ps)
  show ?case by (simp add: progress_and_then [OF assms] Cons.IH)
qed

lemma progress_run_makefile: "progress s w (run_makefile n sys m tgt s w)"
proof (induction n arbitrary: tgt s w)
  case 0
  show ?case by simp
next
  case (Suc n)
  have fe: "\<And>ps. progress s w (for_each (run_makefile n sys m) ps s w)"
    by (rule progress_for_each) (rule Suc.IH)
  show ?case
    by (auto simp: exI [of _ "[]"] progress_run_cmd progress_check_loop
        intro!: progress_and_then [OF fe] split: option.splits)
qed

lemma progress_traverse: "progress sa w (traverse fuel sys m sa w)"
  by (simp add: traverse_def progress_run_makefile progress_for_each)

section \<open>Runs from worlds that agree\<close>

lemma agree_steps:
  assumes "agree q w w'"
  shows "agree q (log_event ev w) (log_event ev w')"
    and "agree q (perror x w) (perror x w')"
    and "agree q (print_cmd cmd w) (print_cmd cmd w')"
    and "agree q (child_stderr ch w) (child_stderr ch w')"
    and "agree q (w\<lparr>fs := f\<rparr>) (w'\<lparr>fs := f\<rparr>)"
    and "agree q (w\<lparr>stderr := stderr w @ ls\<rparr>) (w'\<lparr>stderr := stderr w' @ ls\<rparr>)"
  using assms
  by (cases q; cases ch; simp add: agree_def same_but_stdout_def log_event_def perror_def)+

lemma agree_fs: "agree q w w' \<Longrightarrow> fs w = fs w'"
  by (cases q) (simp_all add: agree_def same_but_stdout_def)

lemma agree_perror_errno: "agree q w w' \<Longrightarrow> perror_errno w = perror_errno w'"
  by (cases q) (simp_all add: agree_def same_but_stdout_def)

lemma os_ok_sys: "os_ok q sys \<Longrightarrow> agree q w w' \<Longrightarrow> sys argv w = sys argv w'"
  by (cases q) (auto simp: agree_def os_ok_def stdout_blind_def)

lemma sim_and_then:
  assumes "sim q e out out'"
    and "\<And>s w s' w'. arg_b s = arg_b s' \<Longrightarrow> (e \<longrightarrow> exitcode s = exitcode s') \<Longrightarrow> agree q w w'
           \<Longrightarrow> sim q e (k s w) (k' s' w')"
  shows "sim q e (and_then out k) (and_then out' k')"
  using assms by (cases out; cases out') simp_all

lemma sim_run_cmd:
  assumes "os_ok q sys" "arg_b s = arg_b s'" "e \<longrightarrow> exitcode s = exitcode s'" "agree q w w'"
  shows "sim q e (run_cmd sys r s w) (run_cmd sys r s' w')"
proof -
  let ?c = "rule_cmd r"
  have p: "agree q (print_cmd ?c w) (print_cmd ?c w')"
    by (rule agree_steps(3) [OF assms(4)])
  have eq: "sys ?c (print_cmd ?c w) = sys ?c (print_cmd ?c w')"
    by (rule os_ok_sys [OF assms(1) p])
  have l: "agree q (log_event ev ((print_cmd ?c w)\<lparr>fs := f\<rparr>))
      (log_event ev ((print_cmd ?c w')\<lparr>fs := f\<rparr>))" for ev f
    by (intro agree_steps(1) agree_steps(5) p)
  have pe: "perror_errno w = perror_errno w'"
    by (rule agree_perror_errno [OF assms(4)])
  show ?thesis
    using assms(2,3)
    by (auto simp: run_cmd_def Let_def eq pe exit_def intro!: agree_steps(2) agree_steps(4) l
        split: spawn.splits option.splits)
qed

lemma sim_check_loop:
  assumes "os_ok q sys"
  shows "arg_b s = arg_b s' \<Longrightarrow> (e \<longrightarrow> exitcode s = exitcode s') \<Longrightarrow> agree q w w' \<Longrightarrow>
    sim q e (check_loop sys m tgt r ps s w) (check_loop sys m tgt r ps s' w')"
proof (induction ps arbitrary: s s' w w')
  case Nil
  then show ?case by simp
next
  case (Cons p ps)
  have f: "fs w = fs w'" by (rule agree_fs [OF Cons.prems(3)])
  from check_file_cases [of tgt p m w] show ?case
  proof
    assume "\<exists>b. check_file tgt p m w = Returned b (log_event (Checked tgt p b) w)"
    then obtain b where cf: "check_file tgt p m w = Returned b (log_event (Checked tgt p b) w)" ..
    then have cf': "check_file tgt p m w' = Returned b (log_event (Checked tgt p b) w')"
      using f by (auto simp: check_file_def verdict_def exit_def Let_def split: if_splits)
    have a: "agree q (log_event (Checked tgt p b) w) (log_event (Checked tgt p b) w')"
      by (rule agree_steps(1) [OF Cons.prems(3)])
    show ?thesis
    proof (cases b)
      case True
      have "sim q e (and_then (run_cmd sys r s (log_event (Checked tgt p b) w)) (check_loop sys m tgt r ps))
         (and_then (run_cmd sys r s' (log_event (Checked tgt p b) w')) (check_loop sys m tgt r ps))"
        by (rule sim_and_then [OF sim_run_cmd [OF assms Cons.prems(1,2) a]]) (rule Cons.IH)
      then show ?thesis by (simp add: cf cf' True)
    next
      case False
      then show ?thesis using Cons.IH [OF Cons.prems(1,2) a] by (simp add: cf cf')
    qed
  next
    assume cf: "check_file tgt p m w
       = Exited (word_of_int EXIT_FAILURE) (w\<lparr>stderr := stderr w @ [No_rule_msg p]\<rparr>)"
    then have cf': "check_file tgt p m w'
       = Exited (word_of_int EXIT_FAILURE) (w'\<lparr>stderr := stderr w' @ [No_rule_msg p]\<rparr>)"
      using f by (auto simp: check_file_def verdict_def exit_def Let_def split: if_splits)
    show ?thesis by (simp add: cf cf' agree_steps(6) [OF Cons.prems(3)])
  qed
qed

lemma sim_for_each:
  assumes "\<And>p s s' w w'. arg_b s = arg_b s' \<Longrightarrow> (e \<longrightarrow> exitcode s = exitcode s') \<Longrightarrow> agree q w w'
      \<Longrightarrow> sim q e (f p s w) (f p s' w')"
  shows "arg_b s = arg_b s' \<Longrightarrow> (e \<longrightarrow> exitcode s = exitcode s') \<Longrightarrow> agree q w w' \<Longrightarrow>
    sim q e (for_each f ps s w) (for_each f ps s' w')"
proof (induction ps arbitrary: s s' w w')
  case Nil
  then show ?case by simp
next
  case (Cons p ps)
  show ?case
    by (simp, rule sim_and_then [OF assms [OF Cons.prems]]) (rule Cons.IH)
qed

lemma sim_run_makefile:
  assumes "os_ok q sys"
  shows "arg_b s = arg_b s' \<Longrightarrow> (e \<longrightarrow> exitcode s = exitcode s') \<Longrightarrow> agree q w w' \<Longrightarrow>
    sim q e (run_makefile n sys m tgt s w) (run_makefile n sys m tgt s' w')"
proof (induction n arbitrary: tgt s s' w w')
  case 0
  show ?case by simp
next
  case (Suc n)
  show ?case
  proof (cases "makefile_rule m tgt")
    case None
    then show ?thesis using Suc.prems by simp
  next
    case (Some r)
    show ?thesis
    proof (cases "rule_prereq r")
      case None
      then show ?thesis using Some sim_run_cmd [OF assms Suc.prems] by simp
    next
      case (Some ps)
      have fe: "sim q e (for_each (run_makefile n sys m) ps s w) (for_each (run_makefile n sys m) ps s' w')"
        by (rule sim_for_each [OF Suc.IH Suc.prems])
      have "sim q e
         (and_then (for_each (run_makefile n sys m) ps s w)
            (\<lambda>s1 w1. if arg_b s1 = 1 then run_cmd sys r s1 w1 else check_loop sys m tgt r ps s1 w1))
         (and_then (for_each (run_makefile n sys m) ps s' w')
            (\<lambda>s1 w1. if arg_b s1 = 1 then run_cmd sys r s1 w1 else check_loop sys m tgt r ps s1 w1))"
        by (rule sim_and_then [OF fe]) (simp add: sim_run_cmd [OF assms] sim_check_loop [OF assms])
      then show ?thesis using \<open>makefile_rule m tgt = Some r\<close> Some by simp
    qed
  qed
qed

lemma sim_traverse:
  assumes "os_ok q sys" "arg_b s = arg_b s'" "e \<longrightarrow> exitcode s = exitcode s'" "agree q w w'"
    "c_tar s = c_tar s'" "target s = target s'"
  shows "sim q e (traverse n sys m s w) (traverse n sys m s' w')"
proof -
  have "sim q e (for_each (run_makefile n sys m) (target s) s w)
      (for_each (run_makefile n sys m) (target s) s' w')"
    by (rule sim_for_each [OF sim_run_makefile [OF assms(1)] assms(2-4)])
  then show ?thesis
    using assms(5,6) sim_run_makefile [OF assms(1-4)] by (simp add: traverse_def)
qed


section \<open>Sequencing and the loops\<close>


lemma checks_of_append: "checks_of (xs @ ys) = checks_of xs @ checks_of ys"
  by (induction xs rule: checks_of.induct) simp_all



















lemma main_Exited:
  assumes "main fuel sys m sa w = Exited c w'"
  shows "\<exists>evs. trace w' = trace w @ evs \<and>
        (calm evs \<or> (\<exists>evs0 ev e. evs = evs0 @ [ev] \<and> calm evs0 \<and> fatal_errno ev = Some e
            \<and> c = word_of_int (perror_errno w e) \<and> (\<exists>errs. stderr w' = errs @ [Perror e])))"
proof -
  let ?w = "if arg_s sa = 1 then fclose_stdout w else w"
  have t: "trace ?w = trace w" "perror_errno ?w = perror_errno w" by (simp_all add: fclose_stdout_def)
  have p: "progress sa ?w (traverse fuel sys m sa ?w)" by (rule progress_traverse)
  show ?thesis
  proof (cases "traverse fuel sys m sa ?w")
    case (Returned s1 w1)
    with assms have "w' = w1" by (simp add: main_def exit_def)
    with p Returned t show ?thesis by auto
  next
    case (Exited c1 w1)
    with assms have "w' = w1" "c = c1" by (simp_all add: main_def)
    with p Exited t show ?thesis by simp
  next
    case Out_of_fuel
    with assms show ?thesis by (simp add: main_def)
  qed
qed

lemma calm_butlast: "calm evs \<Longrightarrow> calm (butlast evs)"
  by (auto simp: calm_def list_all_iff dest: in_set_butlastD)

lemma calm_last: "calm evs \<Longrightarrow> evs \<noteq> [] \<Longrightarrow> fatal_errno (last evs) = None"
  by (simp add: calm_def list_all_iff)

lemma word8_errno_nonzero: "0 < e \<Longrightarrow> e < 256 \<Longrightarrow> (word_of_int e :: 8 word) \<noteq> 0"
  by (simp add: word_of_int_eq_0_iff zdvd_not_zless)

lemma run_makefile_empty_prereq_array:
  "makefile_rule m tgt = Some r \<Longrightarrow> rule_prereq r = Some [] \<Longrightarrow> arg_b s \<noteq> 1 \<Longrightarrow>
   run_makefile (Suc n) sys m tgt s w = Returned s w"
  by simp


section \<open>The exit code of the process\<close>



section \<open>The staleness check\<close>

text \<open>
  C2. When the prerequisite names an existing file, \<^verbatim>\<open>check_file\<close> returns (it never
  exits), and its verdict is: if the target exists too, "rebuild" exactly when the
  prerequisite's modification time is strictly later than the target's (equal or
  earlier gives "no rebuild"); if the target does not exist, "rebuild".
\<close>

theorem check_file_timestamps:
  "access_F_OK (fs w) prereq \<Longrightarrow>
   check_file current prereq m w =
     Returned
       (if access_F_OK (fs w) current
        then lstat_mtime (fs w) current < lstat_mtime (fs w) prereq else True)
       (log_event (Checked current prereq
          (if access_F_OK (fs w) current
           then lstat_mtime (fs w) current < lstat_mtime (fs w) prereq else True)) w)"
  by (simp add: check_file_def verdict_def Let_def difftime_not_after not_le)

theorem check_file_timestamps_witness:
  "access_F_OK (fs (world_with [(''app'', 5), (''app.o'', 7), (''app.c'', 7)])) ''app.o''
   \<and> check_file ''app'' ''app.o'' (makefile_of ''app'' [])
        (world_with [(''app'', 5), (''app.o'', 7), (''app.c'', 7)])
      = Returned True (log_event (Checked ''app'' ''app.o'' True)
          (world_with [(''app'', 5), (''app.o'', 7), (''app.c'', 7)]))
   \<and> check_file ''app.o'' ''app.c'' (makefile_of ''app'' [])
        (world_with [(''app'', 5), (''app.o'', 7), (''app.c'', 7)])
      = Returned False (log_event (Checked ''app.o'' ''app.c'' False)
          (world_with [(''app'', 5), (''app.o'', 7), (''app.c'', 7)]))
   \<and> check_file ''lib'' ''app.c'' (makefile_of ''app'' [])
        (world_with [(''app'', 5), (''app.o'', 7), (''app.c'', 7)])
      = Returned True (log_event (Checked ''lib'' ''app.c'' True)
          (world_with [(''app'', 5), (''app.o'', 7), (''app.c'', 7)]))"
proof -
  let ?w = "world_with [(''app'', 5), (''app.o'', 7), (''app.c'', 7)]"
  have o: "access_F_OK (fs ?w) ''app.o''" and c: "access_F_OK (fs ?w) ''app.c''"
    by (simp_all add: world_with_def files_of_def)
  show ?thesis
    using o check_file_timestamps [OF o, of "''app''" "makefile_of ''app'' []"]
      check_file_timestamps [OF c, of "''app.o''" "makefile_of ''app'' []"]
      check_file_timestamps [OF c, of "''lib''" "makefile_of ''app'' []"]
    by (simp add: world_with_def files_of_def)
qed

text \<open>
  C3. When the prerequisite names no existing file: if the rule file has no rule for
  it, \<^verbatim>\<open>check_file\<close> writes the "No rule to make target" line to the error stream and
  ends the process with \<^verbatim>\<open>EXIT_FAILURE\<close>, which is not 0; no verdict is logged and no
  command is run, and the loop that called it ends with the same exit whatever
  prerequisites remain. If the rule file has a rule for it, the verdict is "rebuild".
\<close>

theorem check_file_missing_prereq:
  "\<not> access_F_OK (fs w) prereq \<Longrightarrow>
   (if makefile_rule m prereq = None
    then check_file current prereq m w
           = Exited (word_of_int EXIT_FAILURE) (w\<lparr>stderr := stderr w @ [No_rule_msg prereq]\<rparr>)
       \<and> check_loop sys m current r (prereq # rest) s w
           = Exited (word_of_int EXIT_FAILURE) (w\<lparr>stderr := stderr w @ [No_rule_msg prereq]\<rparr>)
       \<and> (word_of_int EXIT_FAILURE :: 8 word) \<noteq> 0
    else check_file current prereq m w
           = Returned True (log_event (Checked current prereq True) w))"
  by (simp add: check_file_def verdict_def exit_def EXIT_FAILURE_def)

theorem check_file_missing_prereq_witness:
  "\<not> access_F_OK (fs (world_with [(''app.c'', 7)])) ''util.h''
   \<and> check_loop (sys_always (W_exited 0)) (makefile_of ''app'' []) ''app''
        \<lparr>rule_prereq = Some [''util.h'', ''app.c''], rule_cmd = [''cc'', ''app.c'']\<rparr>
        [''util.h'', ''app.c''] init_struct (world_with [(''app.c'', 7)])
      = Exited 1 ((world_with [(''app.c'', 7)])\<lparr>stderr := [No_rule_msg ''util.h'']\<rparr>)
   \<and> \<not> access_F_OK (fs (world_with [(''app.c'', 7)])) ''app.o''
   \<and> check_file ''app'' ''app.o''
        (makefile_of ''app'' [(''app.o'', \<lparr>rule_prereq = Some [''app.c''], rule_cmd = [''cc'']\<rparr>)])
        (world_with [(''app.c'', 7)])
      = Returned True (log_event (Checked ''app'' ''app.o'' True) (world_with [(''app.c'', 7)]))
   \<and> main (Suc (Suc 0)) (sys_always (W_exited 0)) app_makefile init_struct (world_with [])
      = Exited 1 ((world_with [])\<lparr>stderr := [No_rule_msg ''a.o'']\<rparr>)"
proof -
  let ?w = "world_with [(''app.c'', 7)]"
  have e: "main (Suc (Suc 0)) (sys_always (W_exited 0)) app_makefile init_struct (world_with [])
      = Exited 1 ((world_with [])\<lparr>stderr := [No_rule_msg ''a.o'']\<rparr>)"
    by (simp add: driver_defs input_defs app_makefile_def app_rule_def)
  have u: "\<not> access_F_OK (fs ?w) ''util.h''" and o: "\<not> access_F_OK (fs ?w) ''app.o''"
    by (simp_all add: world_with_def files_of_def)
  show ?thesis
    using u o e
      check_file_missing_prereq [OF u, of "makefile_of ''app'' []" "''app''"
        "sys_always (W_exited 0)"
        "\<lparr>rule_prereq = Some [''util.h'', ''app.c''], rule_cmd = [''cc'', ''app.c'']\<rparr>"
        "[''app.c'']" init_struct]
      check_file_missing_prereq [OF o, of
        "makefile_of ''app'' [(''app.o'', \<lparr>rule_prereq = Some [''app.c''], rule_cmd = [''cc'']\<rparr>)]"
        "''app''"]
    by (simp add: makefile_of_def EXIT_FAILURE_def world_with_def)
qed

section \<open>Rules without prerequisites\<close>

text \<open>
  C4. A rule without prerequisites whose \<^verbatim>\<open>rule_prereq\<close> is an array holding only the
  terminator, built without \<^verbatim>\<open>-B\<close>: both loops of \<^verbatim>\<open>run_makefile\<close> run zero times
  and the rule's command is not executed; nothing is forked and the world is as before.
  (The command is executed when \<^verbatim>\<open>rule_prereq\<close> is \<^verbatim>\<open>NULL\<close>, by the \<^verbatim>\<open>else\<close> branch.)
\<close>

theorem run_makefile_empty_prereq_array_runs_nothing:
  "run_makefile (Suc 0) (sys_always (W_exited 0))
     (makefile_of ''clean'' [(''clean'', \<lparr>rule_prereq = Some [], rule_cmd = [''rm'', ''app.o'']\<rparr>)])
     ''clean'' init_struct (world_with [(''app.o'', 3)])
   = Returned init_struct (world_with [(''app.o'', 3)])"
  by (simp add: makefile_of_def init_struct_def)

section \<open>One command per stale prerequisite\<close>





section \<open>Failures of fork, waitpid and execvp\<close>

text \<open>
  C6. As amended: a failed \<^verbatim>\<open>fork\<close> (and a failed \<^verbatim>\<open>waitpid\<close>) is fatal. \<^verbatim>\<open>run_cmd\<close>
  reports the error on the error stream and ends the process with \<^verbatim>\<open>exit(errno)\<close>, a
  status that is not 0 for every value from 1 to 255 that \<^verbatim>\<open>errno\<close> holds after the
  report; in every run of \<^verbatim>\<open>main\<close> from an empty log such a failure is the last event,
  so nothing is checked or forked after it. A failed \<^verbatim>\<open>execvp\<close> is not fatal to the
  build: the child alone reports and exits, and \<^verbatim>\<open>run_cmd\<close> returns to its caller with
  the child's exit status recorded as exit code.
\<close>

theorem fork_and_wait_failures_end_the_build:
  assumes "trace w = []" and "main fuel sys m sa w = Exited c w'"
  shows "list_all (\<lambda>ev. fatal_errno ev = None) (butlast (trace w'))
    \<and> (\<forall>e. trace w' \<noteq> [] \<and> fatal_errno (last (trace w')) = Some e \<longrightarrow>
          c = word_of_int (perror_errno w e) \<and> (\<exists>errs. stderr w' = errs @ [Perror e])
          \<and> (0 < perror_errno w e \<and> perror_errno w e < 256 \<longrightarrow> c \<noteq> 0))
    \<and> (\<forall>r s w0 e.
          spawn_errno (fst (sys (rule_cmd r) (print_cmd (rule_cmd r) w0))) = Some e \<longrightarrow>
          (\<exists>w1. run_cmd sys r s w0 = Exited (word_of_int (perror_errno w0 e)) w1
             \<and> (\<exists>errs. stderr w1 = errs @ [Perror e])))
    \<and> (\<forall>r s w0 e.
          fst (sys (rule_cmd r) (print_cmd (rule_cmd r) w0)) = Forked (Exec_failed e) None \<longrightarrow>
          (\<exists>w1. run_cmd sys r s w0 = Returned (s\<lparr>exitcode := perror_errno w0 e mod 256\<rparr>) w1))"
proof -
  from main_Exited [OF assms(2)] assms(1) have
    d: "calm (trace w') \<or> (\<exists>evs0 ev e. trace w' = evs0 @ [ev] \<and> calm evs0 \<and> fatal_errno ev = Some e
            \<and> c = word_of_int (perror_errno w e) \<and> (\<exists>errs. stderr w' = errs @ [Perror e]))"
    by auto
  from d have a: "list_all (\<lambda>ev. fatal_errno ev = None) (butlast (trace w'))"
  proof
    assume "calm (trace w')"
    from calm_butlast [OF this] show ?thesis by (simp add: calm_def)
  next
    assume "\<exists>evs0 ev e. trace w' = evs0 @ [ev] \<and> calm evs0 \<and> fatal_errno ev = Some e
            \<and> c = word_of_int (perror_errno w e) \<and> (\<exists>errs. stderr w' = errs @ [Perror e])"
    then show ?thesis by (auto simp: calm_def)
  qed
  have b: "c = word_of_int (perror_errno w e) \<and> (\<exists>errs. stderr w' = errs @ [Perror e])
      \<and> (0 < perror_errno w e \<and> perror_errno w e < 256 \<longrightarrow> c \<noteq> 0)"
    if ne: "trace w' \<noteq> []" and f: "fatal_errno (last (trace w')) = Some e" for e
    using d
  proof
    assume "calm (trace w')"
    from calm_last [OF this ne] f show ?thesis by simp
  next
    assume "\<exists>evs0 ev e. trace w' = evs0 @ [ev] \<and> calm evs0 \<and> fatal_errno ev = Some e
            \<and> c = word_of_int (perror_errno w e) \<and> (\<exists>errs. stderr w' = errs @ [Perror e])"
    with f show ?thesis by (auto simp: word8_errno_nonzero)
  qed
  show ?thesis using a b run_cmd_fatal run_cmd_exec_failed by blast
qed

theorem fork_and_wait_failures_end_the_build_witness:
  "trace ((world_with [])\<lparr>perror_errno := \<lambda>e. 22\<rparr>) = []
   \<and> main (Suc 0) (sys_no_fork 11) two_rules both_targets
        ((world_with [])\<lparr>perror_errno := \<lambda>e. 22\<rparr>)
      = Exited 22
          ((world_with [])\<lparr>stdout := ''first'' @ [CHR 0x0A], stderr := [Perror 11],
             perror_errno := \<lambda>e. 22,
             trace := [Spawn [''first''] (Fork_failed 11) (files_of [])]\<rparr>)
   \<and> fatal_errno (Spawn [''first''] (Fork_failed 11) (files_of [])) = Some 11
   \<and> (22 :: 8 word) \<noteq> 0
   \<and> spawn_errno (fst (sys_no_fork 11 [''first'']
          (print_cmd [''first''] ((world_with [])\<lparr>perror_errno := \<lambda>e. 22\<rparr>)))) = Some 11
   \<and> (\<exists>w1. run_cmd (sys_no_fork 11) \<lparr>rule_prereq = None, rule_cmd = [''first'']\<rparr>
               both_targets ((world_with [])\<lparr>perror_errno := \<lambda>e. 22\<rparr>)
             = Exited 22 w1)
   \<and> trace (world_with []) = []
   \<and> main (Suc 0) (sys_table [(''second'', 0)]) two_rules both_targets (world_with [])
      = Exited 0
          ((world_with [])\<lparr>stdout := ''first'' @ [CHR 0x0A] @ ''second'' @ [CHR 0x0A],
             stderr := [Perror 2],
             trace := [Spawn [''first''] (Forked (Exec_failed 2) None) (files_of []),
                       Spawn [''second''] (Forked (Ran (W_exited 0)) None) (files_of [])]\<rparr>)
   \<and> fst (sys_table [(''second'', 0)] [''first''] (print_cmd [''first''] (world_with [])))
      = Forked (Exec_failed 2) None
   \<and> (\<exists>w1. run_cmd (sys_table [(''second'', 0)]) \<lparr>rule_prereq = None, rule_cmd = [''first'']\<rparr>
               both_targets (world_with [])
             = Returned (both_targets\<lparr>exitcode := 2\<rparr>) w1)"
proof -
  let ?w22 = "(world_with [])\<lparr>perror_errno := \<lambda>e. 22\<rparr>"
  let ?w1 = "(world_with [])\<lparr>stdout := ''first'' @ [CHR 0x0A], stderr := [Perror 11],
             perror_errno := \<lambda>e. 22,
             trace := [Spawn [''first''] (Fork_failed 11) (files_of [])]\<rparr>"
  let ?w2 = "(world_with [])\<lparr>stdout := ''first'' @ [CHR 0x0A] @ ''second'' @ [CHR 0x0A],
             stderr := [Perror 2],
             trace := [Spawn [''first''] (Forked (Exec_failed 2) None) (files_of []),
                       Spawn [''second''] (Forked (Ran (W_exited 0)) None) (files_of [])]\<rparr>"
  let ?r = "\<lparr>rule_prereq = None, rule_cmd = [''first'']\<rparr>"
  have h1: "trace ?w22 = []" and h1': "trace (world_with []) = []"
    by (simp_all add: input_defs)
  have h2: "main (Suc 0) (sys_no_fork 11) two_rules both_targets ?w22 = Exited 22 ?w1"
    by (simp add: driver_defs input_defs sys_no_fork_def two_rules_def both_targets_def)
  have h3: "main (Suc 0) (sys_table [(''second'', 0)]) two_rules both_targets (world_with [])
      = Exited 0 ?w2"
    by (simp add: driver_defs input_defs sys_table_def two_rules_def both_targets_def)
  have h4: "fst (sys_table [(''second'', 0)] (rule_cmd ?r) (print_cmd (rule_cmd ?r) (world_with [])))
      = Forked (Exec_failed 2) None"
    by (simp add: sys_table_def)
  have h5: "spawn_errno (fst (sys_no_fork 11 (rule_cmd ?r) (print_cmd (rule_cmd ?r) ?w22))) = Some 11"
    by (simp add: sys_no_fork_def)
  note T1 = fork_and_wait_failures_end_the_build [OF h1 h2]
  note T2 = fork_and_wait_failures_end_the_build [OF h1' h3]
  from T1 h5 have a: "\<exists>w1. run_cmd (sys_no_fork 11) ?r both_targets ?w22
      = Exited (word_of_int (perror_errno ?w22 11)) w1"
    by blast
  from T2 h4 have b: "\<exists>w1. run_cmd (sys_table [(''second'', 0)]) ?r both_targets (world_with [])
      = Returned (both_targets\<lparr>exitcode := perror_errno (world_with []) 2 mod 256\<rparr>) w1"
    by blast
  from a b h1 h1' h2 h3 h4 h5 show ?thesis by (simp add: world_with_def)
qed

text \<open>
  The claim as stated fails for \<^verbatim>\<open>execvp\<close>: two targets are given and the first
  one's program is not on the path. The second target's command is still run, and the
  process exits with status 0.
\<close>

theorem exec_failure_counterexample:
  "main (Suc 0) (sys_table [(''second'', 0)]) two_rules both_targets (world_with [])
   = Exited 0
       ((world_with [])\<lparr>stdout := ''first'' @ [CHR 0x0A] @ ''second'' @ [CHR 0x0A],
          stderr := [Perror 2],
          trace := [Spawn [''first''] (Forked (Exec_failed 2) None) (files_of []),
                    Spawn [''second''] (Forked (Ran (W_exited 0)) None) (files_of [])]\<rparr>)"
  by (simp add: driver_defs input_defs sys_table_def two_rules_def both_targets_def)

section \<open>A rule with an empty command\<close>

text \<open>
  C7. As amended: for a rule whose command is empty, \<^verbatim>\<open>run_cmd\<close> prints nothing on
  standard output but still forks a child for the empty argument vector and waits
  for it, as for any other command: a failed \<^verbatim>\<open>fork\<close> or \<^verbatim>\<open>waitpid\<close> ends the process
  (with the value \<^verbatim>\<open>errno\<close> holds after the error is reported), a child that exits
  leaves its status as exit code, and the context is unchanged only when the child
  ends without an exit status.
\<close>

theorem run_cmd_empty_command:
  "rule_cmd r = [] \<Longrightarrow>
   \<exists>w'. world_of (run_cmd sys r s w) = Some w'
     \<and> stdout w' = stdout w
     \<and> trace w' = trace w @ [Spawn [] (fst (sys [] w)) (snd (sys [] w))]
     \<and> (case spawn_errno (fst (sys [] w)) of
          Some e \<Rightarrow> run_cmd sys r s w = Exited (word_of_int (perror_errno w e)) w'
        | None \<Rightarrow>
            run_cmd sys r s w =
              Returned (case exit_status_of (perror_errno w)
                               (Spawn [] (fst (sys [] w)) (snd (sys [] w))) of
                          Some c \<Rightarrow> s\<lparr>exitcode := c\<rparr> | None \<Rightarrow> s) w')"
  by (auto simp: run_cmd_def Let_def log_event_def exit_def perror_def exit_status_of_Forked
      split: spawn.splits option.splits)

theorem run_cmd_empty_command_witness:
  "rule_cmd \<lparr>rule_prereq = None, rule_cmd = []\<rparr> = []
   \<and> run_cmd (sys_table []) \<lparr>rule_prereq = None, rule_cmd = []\<rparr> (init_struct\<lparr>exitcode := 2\<rparr>)
        (world_with [])
      = Returned (init_struct\<lparr>exitcode := 2\<rparr>)
          ((world_with [])\<lparr>trace := [Spawn [] (Forked (Ran (W_signaled 11)) None) (files_of [])]\<rparr>)
   \<and> spawn_errno (fst (sys_table [] [] (world_with []))) = None
   \<and> exit_status_of (\<lambda>e. e) (Spawn [] (fst (sys_table [] [] (world_with []))) (files_of []))
      = None
   \<and> run_cmd (sys_no_fork 11) \<lparr>rule_prereq = None, rule_cmd = []\<rparr> init_struct
        ((world_with [])\<lparr>perror_errno := \<lambda>e. 22\<rparr>)
      = Exited 22
          ((world_with [])\<lparr>stderr := [Perror 11], perror_errno := \<lambda>e. 22,
             trace := [Spawn [] (Fork_failed 11) (files_of [])]\<rparr>)"
proof -
  let ?r = "\<lparr>rule_prereq = None, rule_cmd = []\<rparr>"
  have h: "rule_cmd ?r = []" by simp
  from run_cmd_empty_command [OF h, where sys = "sys_table []"
      and s = "init_struct\<lparr>exitcode := 2\<rparr>" and w = "world_with []"]
    run_cmd_empty_command [OF h, where sys = "sys_no_fork 11"
      and s = init_struct and w = "(world_with [])\<lparr>perror_errno := \<lambda>e. 22\<rparr>"] h
  show ?thesis by (simp add: driver_defs input_defs sys_table_def sys_no_fork_def)
qed

text \<open>
  The claim as stated fails: \<^verbatim>\<open>run_cmd\<close> on a rule with an empty command is not
  a no-op, a child process is forked.
\<close>

theorem run_cmd_empty_command_counterexample:
  "run_cmd (sys_always (W_signaled 11)) \<lparr>rule_prereq = None, rule_cmd = []\<rparr>
     init_struct (world_with [])
   = Returned init_struct
       ((world_with [])\<lparr>trace := [Spawn [] (Forked (Ran (W_signaled 11)) None) (files_of [])]\<rparr>)
   \<and> run_cmd (sys_always (W_signaled 11)) \<lparr>rule_prereq = None, rule_cmd = []\<rparr>
     init_struct (world_with [])
   \<noteq> Returned init_struct (world_with [])"
  by (simp add: run_cmd_def sys_always_def world_with_def log_event_def)

section \<open>Targets without a rule\<close>

text \<open>
  C8. For a target name without a rule, \<^verbatim>\<open>run_makefile\<close> returns at once: nothing is
  checked, printed or forked, and the context and the world are unchanged, whatever
  files exist. The same holds when the name is the only target given to \<^verbatim>\<open>main\<close>.
\<close>

theorem run_makefile_no_rule:
  "makefile_rule m tgt = None \<Longrightarrow>
   run_makefile (Suc n) sys m tgt s w = Returned s w
   \<and> traverse (Suc n) sys m (s\<lparr>c_tar := 1, target := [tgt]\<rparr>) w
       = Returned (s\<lparr>c_tar := 1, target := [tgt]\<rparr>) w"
  by (simp add: traverse_def)

theorem run_makefile_no_rule_witness:
  "makefile_rule app_makefile ''README'' = None
   \<and> run_makefile (Suc 0) (sys_always (W_exited 0)) app_makefile ''README''
        init_struct (world_with [])
      = Returned init_struct (world_with [])
   \<and> traverse (Suc 0) (sys_always (W_exited 0)) app_makefile
        (init_struct\<lparr>c_tar := 1, target := [''README'']\<rparr>) (world_with [])
      = Returned (init_struct\<lparr>c_tar := 1, target := [''README'']\<rparr>) (world_with [])"
proof -
  have h: "makefile_rule app_makefile ''README'' = None"
    by (simp add: app_makefile_def makefile_of_def)
  show ?thesis
    using h run_makefile_no_rule [OF h, of 0 "sys_always (W_exited 0)" init_struct "world_with []"]
    by simp
qed

section \<open>The quiet flag\<close>

text \<open>
  C9. As amended: when the operating system's answers do not depend on the standard
  output a child inherits, two runs that differ only in \<^verbatim>\<open>arg_s\<close> either both exceed
  the recursion bound or both exit, with the same status, the same log (the same
  commands in the same order), the same file system and the same error stream; they
  differ at most in standard output.
\<close>

theorem quiet_flag_noninterference:
  assumes "stdout_blind sys"
  shows "(main fuel sys m (sa\<lparr>arg_s := a\<rparr>) w = Out_of_fuel \<and> main fuel sys m (sa\<lparr>arg_s := b\<rparr>) w = Out_of_fuel)
    \<or> (\<exists>c w1 w2. main fuel sys m (sa\<lparr>arg_s := a\<rparr>) w = Exited c w1
          \<and> main fuel sys m (sa\<lparr>arg_s := b\<rparr>) w = Exited c w2
          \<and> same_but_stdout w1 w2 \<and> spawns_of (trace w1) = spawns_of (trace w2))"
proof -
  let ?wa = "if a = 1 then fclose_stdout w else w" and ?wb = "if b = 1 then fclose_stdout w else w"
  have "agree False ?wa ?wb" by (simp add: agree_def same_but_stdout_def fclose_stdout_def)
  then have "sim False True (traverse fuel sys m (sa\<lparr>arg_s := a\<rparr>) ?wa) (traverse fuel sys m (sa\<lparr>arg_s := b\<rparr>) ?wb)"
    using assms by (intro sim_traverse) (simp_all add: os_ok_def)
  then show ?thesis
    by (cases "traverse fuel sys m (sa\<lparr>arg_s := a\<rparr>) ?wa"; cases "traverse fuel sys m (sa\<lparr>arg_s := b\<rparr>) ?wb")
      (simp_all add: main_def exit_def agree_def same_but_stdout_def)
qed

theorem quiet_flag_noninterference_witness:
  "stdout_blind (sys_table [(''first'', 2), (''second'', 0)])
   \<and> main (Suc 0) (sys_table [(''first'', 2), (''second'', 0)]) two_rules
        (both_targets\<lparr>arg_s := 1\<rparr>) (world_with [])
      = Exited 0
          ((world_with [])\<lparr>stdout_open := False,
             trace := [Spawn [''first''] (Forked (Ran (W_exited 2)) None) (files_of []),
                       Spawn [''second''] (Forked (Ran (W_exited 0)) None) (files_of [])]\<rparr>)
   \<and> main (Suc 0) (sys_table [(''first'', 2), (''second'', 0)]) two_rules
        (both_targets\<lparr>arg_s := 0\<rparr>) (world_with [])
      = Exited 0
          ((world_with [])\<lparr>stdout := ''first'' @ [CHR 0x0A] @ ''second'' @ [CHR 0x0A],
             trace := [Spawn [''first''] (Forked (Ran (W_exited 2)) None) (files_of []),
                       Spawn [''second''] (Forked (Ran (W_exited 0)) None) (files_of [])]\<rparr>)"
proof -
  have h: "stdout_blind (sys_table [(''first'', 2), (''second'', 0)])"
    by (simp add: stdout_blind_def same_but_stdout_def sys_table_def
        split: list.splits option.splits)
  from quiet_flag_noninterference [OF h, where fuel = "Suc 0" and m = two_rules
      and sa = both_targets and a = 1 and b = 0 and w = "world_with []"] h
  show ?thesis by (simp add: driver_defs input_defs sys_table_def two_rules_def both_targets_def)
qed

text \<open>
  The claim as stated fails: \<^verbatim>\<open>-s\<close> is implemented by closing standard output in
  \<^verbatim>\<open>main\<close>, and the children inherit that. With a program that fails when it cannot
  write to standard output, the run with \<^verbatim>\<open>-s\<close> exits with 1 and the run without
  exits with 0.
\<close>

theorem quiet_flag_counterexample:
  "main (Suc 0) sys_needs_stdout hello_rules (init_struct\<lparr>arg_s := 0\<rparr>) (world_with [])
   = Exited 0
       ((world_with [])\<lparr>stdout := ''echo hello'' @ [CHR 0x0A],
          trace := [Spawn [''echo'', ''hello''] (Forked (Ran (W_exited 0)) None) (files_of [])]\<rparr>)
   \<and> main (Suc 0) sys_needs_stdout hello_rules (init_struct\<lparr>arg_s := 1\<rparr>) (world_with [])
   = Exited 1
       ((world_with [])\<lparr>stdout_open := False,
          trace := [Spawn [''echo'', ''hello''] (Forked (Ran (W_exited 1)) None) (files_of [])]\<rparr>)"
  by (simp add: driver_defs input_defs sys_needs_stdout_def hello_rules_def)

section \<open>Children that end without an exit status\<close>

text \<open>
  C10. When the child is forked and waited for, \<^verbatim>\<open>run_cmd\<close> returns to its caller,
  so the traversal goes on. If the status \<^verbatim>\<open>waitpid\<close> reports is a termination by a
  signal, the context is unchanged, the exit code included; only if it is a normal
  exit does the exit code change, to the child's exit status.
\<close>

theorem run_cmd_child_status:
  "fst (sys (rule_cmd r) (print_cmd (rule_cmd r) w)) = Forked ch None \<Longrightarrow>
   run_cmd sys r s w =
     Returned
       (case child_status (perror_errno w) ch of
          W_signaled sig \<Rightarrow> s
        | W_exited c \<Rightarrow> s\<lparr>exitcode := uint c\<rparr>)
       (child_stderr ch
          (log_event (Spawn (rule_cmd r) (Forked ch None)
                        (snd (sys (rule_cmd r) (print_cmd (rule_cmd r) w))))
             ((print_cmd (rule_cmd r) w)\<lparr>fs := snd (sys (rule_cmd r) (print_cmd (rule_cmd r) w))\<rparr>)))"
  by (cases "child_status (perror_errno w) ch") (simp_all add: run_cmd_def Let_def)

theorem run_cmd_child_status_witness:
  "fst (sys_always (W_signaled 9) (rule_cmd \<lparr>rule_prereq = None, rule_cmd = [''cc'']\<rparr>)
         (print_cmd (rule_cmd \<lparr>rule_prereq = None, rule_cmd = [''cc'']\<rparr>) (world_with [])))
     = Forked (Ran (W_signaled 9)) None
   \<and> run_cmd (sys_always (W_signaled 9)) \<lparr>rule_prereq = None, rule_cmd = [''cc'']\<rparr>
        (init_struct\<lparr>exitcode := 2\<rparr>) (world_with [])
      = Returned (init_struct\<lparr>exitcode := 2\<rparr>)
          ((world_with [])\<lparr>stdout := ''cc'' @ [CHR 0x0A],
             trace := [Spawn [''cc''] (Forked (Ran (W_signaled 9)) None) (files_of [])]\<rparr>)"
proof -
  let ?r = "\<lparr>rule_prereq = None, rule_cmd = [''cc'']\<rparr>"
  have h: "fst (sys_always (W_signaled 9) (rule_cmd ?r) (print_cmd (rule_cmd ?r) (world_with [])))
      = Forked (Ran (W_signaled 9)) None"
    by (simp add: sys_always_def)
  show ?thesis
    using h run_cmd_child_status [where sys = "sys_always (W_signaled 9)" and r = ?r
        and w = "world_with []" and ch = "Ran (W_signaled 9)" and s = "init_struct\<lparr>exitcode := 2\<rparr>"]
    by (simp add: sys_always_def world_with_def files_of_def printf_def log_event_def)
qed

end
